theory Spec2Isabelle
  imports Complex_Main "HOL-Library.Sublist"
begin

section \<open>Strings\<close>

text \<open>
  A Python \<open>str\<close> is a sequence of code points. It is modelled as a \<open>string\<close>, one \<open>char\<close>
  per code point, so the model has the strings whose code points are below 256.

  \<open>upper_char\<close> is \<open>str.upper\<close> on ASCII text; the code applies \<open>upper\<close> to the cleaned
  base name, to the hexadecimal digits of a UUID and to the SKU candidates built from
  them. \<open>is_alnum\<close> is the complement of the regular expression class \<open>[^A-Za-z0-9]\<close>.

  \<open>lower_char\<close> is \<open>str.lower\<close> on the code points below 256: besides \<open>A\<close>..\<open>Z\<close> it lowers
  the letters 192..222 of Latin-1, the multiplication sign 215 excepted. \<open>is_space\<close> is
  \<open>str.isspace\<close> on the code points below 256, which is also what \<open>str.strip()\<close>,
  \<open>str.split()\<close> and the regular expression class \<open>\s\<close> take as white space: 9..13,
  28..32, 133 and 160.
\<close>

definition upper_char :: "char \<Rightarrow> char" where
  "upper_char c =
     (let n = (of_char c :: nat) in if 97 \<le> n \<and> n \<le> 122 then char_of (n - 32) else c)"

definition lower_char :: "char \<Rightarrow> char" where
  "lower_char c =
     (let n = (of_char c :: nat)
      in if (65 \<le> n \<and> n \<le> 90) \<or> (192 \<le> n \<and> n \<le> 222 \<and> n \<noteq> 215) then char_of (n + 32)
         else c)"

definition upper :: "string \<Rightarrow> string" where
  "upper s = map upper_char s"

definition lower :: "string \<Rightarrow> string" where
  "lower s = map lower_char s"

definition is_alnum :: "char \<Rightarrow> bool" where
  "is_alnum c =
     (let n = (of_char c :: nat)
      in (48 \<le> n \<and> n \<le> 57) \<or> (65 \<le> n \<and> n \<le> 90) \<or> (97 \<le> n \<and> n \<le> 122))"

definition is_space :: "char \<Rightarrow> bool" where
  "is_space c =
     (let n = (of_char c :: nat)
      in (9 \<le> n \<and> n \<le> 13) \<or> (28 \<le> n \<and> n \<le> 32) \<or> n = 133 \<or> n = 160)"

section \<open>Data model (app/models.py)\<close>

text \<open>
  The two tables. The primary key column \<open>id\<close> is named \<open>user_id\<close> and \<open>product_id\<close>
  here. A column declared \<open>nullable=False\<close> has its plain type; a column that may hold
  NULL has an option type, \<open>None\<close> being NULL. \<open>is_superuser\<close> is only ever written by the
  column default and by init_db.py, both with a Boolean. \<open>price\<close> is a Float column; the
  code only compares prices, and every finite float is a rational with the same order.
  The server-maintained timestamps \<open>created_at\<close> and \<open>updated_at\<close> are not part of the
  model.
\<close>

record user =
  user_id :: int
  email :: string
  username :: string
  hashed_password :: string
  full_name :: "string option"
  user_is_active :: "bool option"
  is_superuser :: bool

record product =
  product_id :: int
  name :: string
  description :: "string option"
  price :: rat
  stock_quantity :: int
  category :: "string option"
  sku :: string
  is_active :: "bool option"
  owner_id :: int

text \<open>The database behind a \<open>Session\<close>: the rows of each table in storage order.\<close>

record db =
  users :: "user list"
  products :: "product list"

text \<open>
  Failures. The code raises \<open>HTTPException(status_code, detail)\<close>; a constraint violation
  at \<open>db.commit()\<close> is SQLAlchemy's \<open>IntegrityError\<close>, and a query parameter outside its
  declared \<open>Query(...)\<close> bounds is FastAPI's \<open>RequestValidationError\<close>.
\<close>

datatype error =
    HTTPException nat string
  | IntegrityError
  | RequestValidationError

text \<open>The names the specification gives to the failures, section 7.\<close>

definition DuplicateEmail :: error where
  "DuplicateEmail = HTTPException 400 ''Email already registered''"

definition DuplicateUsername :: error where
  "DuplicateUsername = HTTPException 400 ''Username already taken''"

definition UserNotFound :: error where
  "UserNotFound = HTTPException 404 ''User not found''"

definition ProductNotFound :: error where
  "ProductNotFound = HTTPException 404 ''Product not found''"

definition InvalidOperation :: error where
  "InvalidOperation = HTTPException 400 ''Cannot delete your own account''"


section \<open>User operations (app/crud.py)\<close>

text \<open>\<open>db.query(User).filter(...).first()\<close>: the first row that satisfies the filter.\<close>

definition get_user :: "db \<Rightarrow> int \<Rightarrow> user option" where
  "get_user d uid = List.find (\<lambda>u. user_id u = uid) (users d)"

definition get_user_by_email :: "db \<Rightarrow> string \<Rightarrow> user option" where
  "get_user_by_email d e = List.find (\<lambda>u. email u = e) (users d)"

definition get_user_by_username :: "db \<Rightarrow> string \<Rightarrow> user option" where
  "get_user_by_username d n = List.find (\<lambda>u. username u = n) (users d)"

text \<open>The \<open>UserCreate\<close> schema.\<close>

record user_create =
  uc_email :: string
  uc_username :: string
  uc_password :: string
  uc_full_name :: "string option"

text \<open>
  The primary key the database assigns to an inserted row: one more than the largest key
  in the table (SQLite's rowid rule), 1 for an empty table.
\<close>

definition next_id :: "int list \<Rightarrow> int" where
  "next_id ids = foldr max ids 0 + 1"

text \<open>
  \<open>create_user\<close>. \<open>get_password_hash\<close> lives in app/auth.py, which is not among the
  sources; it is the parameter \<open>hash\<close>. The row is built without \<open>is_active\<close> and
  \<open>is_superuser\<close>, so the insert stores the column defaults \<open>True\<close> and \<open>False\<close>.
\<close>

definition create_user :: "(string \<Rightarrow> string) \<Rightarrow> db \<Rightarrow> user_create \<Rightarrow> (error + user) \<times> db" where
  "create_user hash d u =
     (if get_user_by_email d (uc_email u) \<noteq> None then (Inl DuplicateEmail, d)
      else if get_user_by_username d (uc_username u) \<noteq> None then (Inl DuplicateUsername, d)
      else
        let hashed = hash (uc_password u);
            db_user = \<lparr> user_id = next_id (map user_id (users d)),
                        email = uc_email u,
                        username = uc_username u,
                        hashed_password = hashed,
                        full_name = uc_full_name u,
                        user_is_active = Some True,
                        is_superuser = False \<rparr>
        in (Inr db_user, d\<lparr>users := users d @ [db_user]\<rparr>))"

text \<open>
  The \<open>UserUpdate\<close> schema after \<open>dict(exclude_unset=True)\<close>: for each field, \<open>None\<close>
  when the request did not supply it, \<open>Some None\<close> when it supplied \<open>null\<close> (every field
  of the schema is \<open>Optional\<close>), \<open>Some (Some v)\<close> when it supplied a value.
\<close>

record user_update =
  uu_email :: "string option option"
  uu_username :: "string option option"
  uu_full_name :: "string option option"
  uu_is_active :: "bool option option"

text \<open>
  The \<open>setattr\<close> loop of \<open>update_user\<close> followed by the flush at \<open>db.commit()\<close>: each
  column takes the supplied value, if there is one. \<open>email\<close> and \<open>username\<close> are NOT NULL
  columns, so a supplied \<open>null\<close> for either makes the commit fail.
\<close>

definition set_user_fields :: "user_update \<Rightarrow> user \<Rightarrow> user option" where
  "set_user_fields upd u =
     (if uu_email upd = Some None \<or> uu_username upd = Some None then None
      else Some (u\<lparr> email := (case uu_email upd of Some (Some v) \<Rightarrow> v | _ \<Rightarrow> email u),
                    username := (case uu_username upd of Some (Some v) \<Rightarrow> v | _ \<Rightarrow> username u),
                    full_name := (case uu_full_name upd of Some v \<Rightarrow> v | None \<Rightarrow> full_name u),
                    user_is_active :=
                      (case uu_is_active upd of Some v \<Rightarrow> v | None \<Rightarrow> user_is_active u) \<rparr>))"

text \<open>
  The uniqueness checks of \<open>update_user\<close>: a supplied value that another user (one with
  a different id) already holds. A supplied \<open>null\<close> compares with \<open>IS NULL\<close> and finds
  no row.
\<close>

definition taken_by_other :: "user option \<Rightarrow> int \<Rightarrow> bool" where
  "taken_by_other existing_user uid =
     (case existing_user of None \<Rightarrow> False | Some e \<Rightarrow> user_id e \<noteq> uid)"

definition update_user :: "db \<Rightarrow> int \<Rightarrow> user_update \<Rightarrow> (error + user) \<times> db" where
  "update_user d uid upd =
     (case get_user d uid of
        None \<Rightarrow> (Inl UserNotFound, d)
      | Some db_user \<Rightarrow>
          if (case uu_email upd of
                Some (Some e) \<Rightarrow> taken_by_other (get_user_by_email d e) uid
              | _ \<Rightarrow> False)
          then (Inl DuplicateEmail, d)
          else if (case uu_username upd of
                     Some (Some n) \<Rightarrow> taken_by_other (get_user_by_username d n) uid
                   | _ \<Rightarrow> False)
          then (Inl DuplicateUsername, d)
          else
            (case set_user_fields upd db_user of
               None \<Rightarrow> (Inl IntegrityError, d)
             | Some u' \<Rightarrow>
                 (Inr u', d\<lparr>users := map (\<lambda>u. if user_id u = uid then u' else u) (users d)\<rparr>)))"

text \<open>
  \<open>delete_user\<close>. The relationship \<open>User.products\<close> has no delete cascade, so deleting
  a user makes the session set \<open>owner_id\<close> of each of that user's products to NULL
  before the row is deleted; \<open>Product.owner_id\<close> is declared \<open>nullable=False\<close>, so
  the commit fails when the user owns a product, and nothing is deleted.
\<close>

definition owns_product :: "db \<Rightarrow> int \<Rightarrow> bool" where
  "owns_product d uid = (List.find (\<lambda>p. owner_id p = uid) (products d) \<noteq> None)"

definition delete_user :: "db \<Rightarrow> int \<Rightarrow> (error + bool) \<times> db" where
  "delete_user d uid =
     (case get_user d uid of
        None \<Rightarrow> (Inl UserNotFound, d)
      | Some db_user \<Rightarrow>
          if owns_product d uid then (Inl IntegrityError, d)
          else (Inr True, d\<lparr>users := filter (\<lambda>u. user_id u \<noteq> uid) (users d)\<rparr>))"

section \<open>Product queries (app/crud.py)\<close>

definition get_product :: "db \<Rightarrow> int \<Rightarrow> product option" where
  "get_product d pid = List.find (\<lambda>p. product_id p = pid) (products d)"

definition get_product_by_sku :: "db \<Rightarrow> string \<Rightarrow> product option" where
  "get_product_by_sku d s = List.find (\<lambda>p. sku p = upper s) (products d)"

text \<open>
  SQL \<open>LIKE\<close>: in the pattern \<open>%\<close> stands for any run of characters and \<open>_\<close> for any one
  character, every other character for itself (SQLite, the configured database, has no
  escape character unless the statement names one). The first argument is the pattern.
\<close>

fun like :: "string \<Rightarrow> string \<Rightarrow> bool" where
  "like [] s = (s = [])"
| "like (c # p) [] = (c = CHR ''%'' \<and> like p [])"
| "like (c # p) (x # s) =
     (if c = CHR ''%'' then like p (x # s) \<or> like (c # p) s
      else (c = CHR ''_'' \<or> c = x) \<and> like p s)"

text \<open>
  \<open>column.ilike(pattern)\<close> is, on SQLite, \<open>lower(column) LIKE lower(pattern)\<close>, and the
  \<open>lower\<close> function of SQLite changes the ASCII letters \<open>A\<close>..\<open>Z\<close> only. On a NULL column
  the comparison is NULL; the conditions built from it are disjunctions inside a filter,
  which keeps the rows whose condition is true, so NULL counts as no match.
\<close>

definition sql_lower_char :: "char \<Rightarrow> char" where
  "sql_lower_char c =
     (let n = (of_char c :: nat) in if 65 \<le> n \<and> n \<le> 90 then char_of (n + 32) else c)"

definition sql_lower :: "string \<Rightarrow> string" where
  "sql_lower s = map sql_lower_char s"

definition ilike :: "string option \<Rightarrow> string \<Rightarrow> bool" where
  "ilike col pat =
     (case col of None \<Rightarrow> False | Some s \<Rightarrow> like (sql_lower pat) (sql_lower s))"

text \<open>Python's truth value of an \<open>Optional[str]\<close>: \<open>None\<close> and the empty string are false.\<close>

definition truthy :: "string option \<Rightarrow> bool" where
  "truthy s = (case s of None \<Rightarrow> False | Some v \<Rightarrow> v \<noteq> [])"

text \<open>
  \<open>get_products\<close>: the filters in the order of the source, then \<open>offset(skip)\<close> and
  \<open>limit(limit)\<close>. \<open>skip\<close> and \<open>limit\<close> are natural numbers: the endpoint admits no
  negative value.
\<close>

definition search_filter :: "string \<Rightarrow> product \<Rightarrow> bool" where
  "search_filter search p =
     (ilike (Some (name p)) (''%'' @ search @ ''%'') \<or>
      ilike (description p) (''%'' @ search @ ''%'') \<or>
      ilike (Some (sku p)) (''%'' @ search @ ''%''))"

definition filtered_products ::
  "db \<Rightarrow> string option \<Rightarrow> string option \<Rightarrow> rat option \<Rightarrow> rat option \<Rightarrow> bool \<Rightarrow> product list" where
  "filtered_products d category_arg search min_price max_price active_only =
     (let q0 = products d;
          q1 = (if active_only then filter (\<lambda>p. is_active p = Some True) q0 else q0);
          q2 = (if truthy category_arg then filter (\<lambda>p. category p = category_arg) q1 else q1);
          q3 = (case search of
                  None \<Rightarrow> q2
                | Some s \<Rightarrow> if s \<noteq> [] then filter (search_filter s) q2 else q2);
          q4 = (case min_price of None \<Rightarrow> q3 | Some m \<Rightarrow> filter (\<lambda>p. m \<le> price p) q3);
          q5 = (case max_price of None \<Rightarrow> q4 | Some m \<Rightarrow> filter (\<lambda>p. price p \<le> m) q4)
      in q5)"

definition get_products ::
  "db \<Rightarrow> nat \<Rightarrow> nat \<Rightarrow> string option \<Rightarrow> string option \<Rightarrow> rat option \<Rightarrow> rat option \<Rightarrow> bool
     \<Rightarrow> product list" where
  "get_products d skip limit category_arg search min_price max_price active_only =
     take limit (drop skip (filtered_products d category_arg search min_price max_price active_only))"

section \<open>Product listing (app/api/products.py)\<close>

record paginated_response =
  pr_items :: "product list"
  pr_total :: nat
  pr_page :: nat
  pr_size :: nat
  pr_pages :: nat

text \<open>
  \<open>read_products\<close>. The \<open>Query\<close> declarations reject \<open>limit\<close> outside 1..1000 and a
  negative price bound before the body runs. The count for the pagination calls
  \<open>get_products\<close> without \<open>skip\<close> and \<open>limit\<close>, which therefore take their defaults
  0 and 100.
\<close>

definition read_products ::
  "db \<Rightarrow> nat \<Rightarrow> nat \<Rightarrow> string option \<Rightarrow> string option \<Rightarrow> rat option \<Rightarrow> rat option \<Rightarrow> bool
     \<Rightarrow> error + paginated_response" where
  "read_products d skip limit category_arg search min_price max_price active_only =
     (if limit < 1 \<or> 1000 < limit
         \<or> (case min_price of None \<Rightarrow> False | Some m \<Rightarrow> m < 0)
         \<or> (case max_price of None \<Rightarrow> False | Some m \<Rightarrow> m < 0)
      then Inl RequestValidationError
      else
        let prods = get_products d skip limit category_arg search min_price max_price active_only;
            total_products =
              length (get_products d 0 100 category_arg search min_price max_price active_only);
            pages = (total_products + limit - 1) div limit;
            page = (skip div limit) + 1
        in Inr \<lparr> pr_items = prods, pr_total = total_products, pr_page = page,
                 pr_size = limit, pr_pages = pages \<rparr>)"

section \<open>Full-text search (app/search.py)\<close>



text \<open>
  \<open>str.split()\<close> with no separator: the maximal runs of characters that are not white
  space, in order. \<open>cur\<close> is the token being read.
\<close>

fun split_from :: "string \<Rightarrow> string \<Rightarrow> string list" where
  "split_from cur [] = (if cur = [] then [] else [cur])"
| "split_from cur (c # cs) =
     (if is_space c then (if cur = [] then split_from [] cs else cur # split_from [] cs)
      else split_from (cur @ [c]) cs)"

definition split :: "string \<Rightarrow> string list" where
  "split s = split_from [] s"



section \<open>SKU generation (app/crud.py)\<close>

text \<open>\<open>str(n)\<close> for a natural number, and the format \<open>{n:04d}\<close>: at least four digits.\<close>

fun str_nat :: "nat \<Rightarrow> string" where
  "str_nat n =
     (if n < 10 then [char_of (48 + n)] else str_nat (n div 10) @ [char_of (48 + n mod 10)])"

declare str_nat.simps [simp del]

definition format_04d :: "nat \<Rightarrow> string" where
  "format_04d n = (let s = str_nat n in replicate (4 - length s) CHR ''0'' @ s)"

text \<open>
  The cleaned base name: \<open>re.sub(r'[^A-Za-z0-9]', '', base_name).upper()[:8]\<close>, and
  \<open>PROD\<close> when nothing is left.
\<close>

definition clean_name :: "string \<Rightarrow> string" where
  "clean_name base_name =
     (let c = take 8 (upper (filter is_alnum base_name)) in if c = [] then ''PROD'' else c)"

text \<open>
  The first loop of \<open>generate_unique_sku\<close>, entered with \<open>counter = 1\<close>: \<open>Some sku\<close> is the
  \<open>return\<close>, \<open>None\<close> the \<open>break\<close> once the counter has passed 9999.
\<close>

function counter_loop :: "db \<Rightarrow> string \<Rightarrow> nat \<Rightarrow> string option" where
  "counter_loop d clean counter =
     (let s = clean @ ''-'' @ format_04d counter
      in if get_product_by_sku d s = None then Some s
         else if counter + 1 > 9999 then None
         else counter_loop d clean (counter + 1))"
  by pat_completeness auto
termination
  by (relation "measure (\<lambda>(d, clean, counter). 9999 - counter)") auto

declare counter_loop.simps [simp del]

text \<open>
  The second loop. \<open>uuid4 i\<close> is the text of the \<open>i\<close>-th value that \<open>uuid.uuid4()\<close>
  yields during the call. The loop has no bound: \<open>None\<close> is the run that never
  returns.
\<close>

definition uuid_part :: "string \<Rightarrow> string" where
  "uuid_part u = upper (take 8 (filter (\<lambda>c. c \<noteq> CHR ''-'') u))"

partial_function (option) uuid_loop :: "db \<Rightarrow> string \<Rightarrow> (nat \<Rightarrow> string) \<Rightarrow> nat \<Rightarrow> string option" where
  "uuid_loop d clean uuid4 i =
     (if get_product_by_sku d (clean @ ''-'' @ uuid_part (uuid4 i)) = None
      then Some (clean @ ''-'' @ uuid_part (uuid4 i))
      else uuid_loop d clean uuid4 (i + 1))"

declare uuid_loop.simps [code]

definition generate_unique_sku :: "db \<Rightarrow> (nat \<Rightarrow> string) \<Rightarrow> string option \<Rightarrow> string option" where
  "generate_unique_sku d uuid4 base_name =
     (if truthy base_name then
        (case base_name of
           None \<Rightarrow> uuid_loop d ''PROD'' uuid4 0
         | Some b \<Rightarrow>
             (case counter_loop d (clean_name b) 1 of
                Some s \<Rightarrow> Some s
              | None \<Rightarrow> uuid_loop d (clean_name b) uuid4 0))
      else uuid_loop d ''PROD'' uuid4 0)"

section \<open>Product mutations (app/crud.py)\<close>

text \<open>
  The \<open>ProductUpdate\<close> schema after \<open>dict(exclude_unset=True)\<close>, with the same reading
  of the option layers as for \<open>user_update\<close>. The schema declares no \<open>sku\<close>;
  \<open>update_product\<close> still looks for that key, so the dictionary has a place for it.
\<close>

record product_update =
  pu_name :: "string option option"
  pu_description :: "string option option"
  pu_price :: "rat option option"
  pu_stock_quantity :: "int option option"
  pu_category :: "string option option"
  pu_is_active :: "bool option option"
  pu_sku :: "string option option"

text \<open>
  The \<open>setattr\<close> loop followed by the flush at \<open>db.commit()\<close>: each column takes the
  supplied value, if there is one. \<open>name\<close>, \<open>price\<close>,
  \<open>stock_quantity\<close> and \<open>sku\<close> are NOT NULL columns, and the table has the check
  constraints \<open>price >= 0\<close> and \<open>stock_quantity >= 0\<close>; a row that breaks one of them
  is not written.
\<close>

definition set_product_fields :: "product_update \<Rightarrow> product \<Rightarrow> product option" where
  "set_product_fields upd p =
     (if pu_name upd = Some None \<or> pu_price upd = Some None
         \<or> pu_stock_quantity upd = Some None \<or> pu_sku upd = Some None then None
      else
        let p' = p\<lparr> name := (case pu_name upd of Some (Some v) \<Rightarrow> v | _ \<Rightarrow> name p),
                    description :=
                      (case pu_description upd of Some v \<Rightarrow> v | None \<Rightarrow> description p),
                    price := (case pu_price upd of Some (Some v) \<Rightarrow> v | _ \<Rightarrow> price p),
                    stock_quantity :=
                      (case pu_stock_quantity upd of Some (Some v) \<Rightarrow> v | _ \<Rightarrow> stock_quantity p),
                    category := (case pu_category upd of Some v \<Rightarrow> v | None \<Rightarrow> category p),
                    is_active := (case pu_is_active upd of Some v \<Rightarrow> v | None \<Rightarrow> is_active p),
                    sku := (case pu_sku upd of Some (Some v) \<Rightarrow> v | _ \<Rightarrow> sku p) \<rparr>
        in if price p' < 0 \<or> stock_quantity p' < 0 then None else Some p')"

definition Forbidden_update :: error where
  "Forbidden_update = HTTPException 403 ''Not enough permissions to update this product''"

definition Forbidden_delete :: error where
  "Forbidden_delete = HTTPException 403 ''Not enough permissions to delete this product''"

definition update_product :: "db \<Rightarrow> int \<Rightarrow> product_update \<Rightarrow> user \<Rightarrow> (error + product) \<times> db" where
  "update_product d pid upd current_user =
     (case get_product d pid of
        None \<Rightarrow> (Inl ProductNotFound, d)
      | Some db_product \<Rightarrow>
          if owner_id db_product \<noteq> user_id current_user \<and> \<not> is_superuser current_user
          then (Inl Forbidden_update, d)
          else
            let update_data = upd\<lparr>pu_sku := None\<rparr>
            in (case set_product_fields update_data db_product of
                  None \<Rightarrow> (Inl IntegrityError, d)
                | Some p' \<Rightarrow>
                    (Inr p',
                     d\<lparr>products := map (\<lambda>p. if product_id p = pid then p' else p) (products d)\<rparr>)))"

definition delete_product :: "db \<Rightarrow> int \<Rightarrow> user \<Rightarrow> (error + bool) \<times> db" where
  "delete_product d pid current_user =
     (case get_product d pid of
        None \<Rightarrow> (Inl ProductNotFound, d)
      | Some db_product \<Rightarrow>
          if owner_id db_product \<noteq> user_id current_user \<and> \<not> is_superuser current_user
          then (Inl Forbidden_delete, d)
          else (Inr True, d\<lparr>products := filter (\<lambda>p. product_id p \<noteq> pid) (products d)\<rparr>))"

section \<open>Endpoints and their dependencies (app/api)\<close>

text \<open>
  The dependencies \<open>get_current_active_user\<close> and \<open>get_current_superuser\<close> are defined
  in app/auth.py, which is not among the sources. FastAPI resolves a \<open>Depends(...)\<close>
  parameter before the body of the handler runs; a failure there is the response.
\<close>

definition InactiveAccount :: error where
  "InactiveAccount = HTTPException 400 ''Inactive user''"

definition Forbidden :: error where
  "Forbidden = HTTPException 403 ''Not enough permissions''"

text \<open>
  Modelled from the spec: \<open>get_current_active_user\<close> of app/auth.py is missing. Section
  4.2: \<open>require_active(user)\<close> fails with \<open>InactiveAccount\<close> if the active flag is false.
\<close>

definition get_current_active_user :: "user \<Rightarrow> error + user" where
  "get_current_active_user u = (if user_is_active u = Some False then Inl InactiveAccount else Inr u)"

text \<open>
  Modelled from the spec: \<open>get_current_superuser\<close> of app/auth.py is missing. Section
  4.2: \<open>require_superuser(user)\<close> fails with \<open>Forbidden\<close> if the user is not a superuser;
  section 7 gives \<open>Forbidden\<close> the status 403.
\<close>

definition get_current_superuser :: "user \<Rightarrow> error + user" where
  "get_current_superuser u = (if is_superuser u then Inr u else Inl Forbidden)"

text \<open>The bodies of the handlers, given the resolved \<open>current_user\<close>.\<close>

definition update_existing_product ::
  "db \<Rightarrow> int \<Rightarrow> product_update \<Rightarrow> user \<Rightarrow> (error + product) \<times> db" where
  "update_existing_product d pid upd current_user = update_product d pid upd current_user"

definition delete_existing_product :: "db \<Rightarrow> int \<Rightarrow> user \<Rightarrow> (error + string) \<times> db" where
  "delete_existing_product d pid current_user =
     (case delete_product d pid current_user of
        (Inl e, d') \<Rightarrow> (Inl e, d')
      | (Inr b, d') \<Rightarrow> (Inr ''Product deleted successfully'', d'))"

definition update_existing_user :: "db \<Rightarrow> int \<Rightarrow> user_update \<Rightarrow> user \<Rightarrow> (error + user) \<times> db" where
  "update_existing_user d uid upd current_user = update_user d uid upd"

definition delete_existing_user :: "db \<Rightarrow> int \<Rightarrow> user \<Rightarrow> (error + string) \<times> db" where
  "delete_existing_user d uid current_user =
     (if uid = user_id current_user then (Inl InvalidOperation, d)
      else
        (case delete_user d uid of
           (Inl e, d') \<Rightarrow> (Inl e, d')
         | (Inr b, d') \<Rightarrow> (Inr ''User deleted successfully'', d')))"

text \<open>A request: the dependency first, then the body. \<open>caller\<close> is the authenticated user.\<close>

definition with_dependency ::
  "(user \<Rightarrow> error + user) \<Rightarrow> db \<Rightarrow> user \<Rightarrow> (user \<Rightarrow> (error + 'a) \<times> db) \<Rightarrow> (error + 'a) \<times> db" where
  "with_dependency dep d caller body =
     (case dep caller of Inl e \<Rightarrow> (Inl e, d) | Inr current_user \<Rightarrow> body current_user)"

definition put_product :: "db \<Rightarrow> int \<Rightarrow> product_update \<Rightarrow> user \<Rightarrow> (error + product) \<times> db" where
  "put_product d pid upd caller =
     with_dependency get_current_active_user d caller (update_existing_product d pid upd)"

definition delete_product_request :: "db \<Rightarrow> int \<Rightarrow> user \<Rightarrow> (error + string) \<times> db" where
  "delete_product_request d pid caller =
     with_dependency get_current_active_user d caller (delete_existing_product d pid)"

definition put_user :: "db \<Rightarrow> int \<Rightarrow> user_update \<Rightarrow> user \<Rightarrow> (error + user) \<times> db" where
  "put_user d uid upd caller =
     with_dependency get_current_superuser d caller (update_existing_user d uid upd)"

definition delete_user_request :: "db \<Rightarrow> int \<Rightarrow> user \<Rightarrow> (error + string) \<times> db" where
  "delete_user_request d uid caller =
     with_dependency get_current_superuser d caller (delete_existing_user d uid)"

section \<open>Notions of the specification\<close>

text \<open>
  From the spec, section 4.2: \<open>can_modify_product(user, product)\<close> is true iff
  \<open>user.id == product.owner_id\<close> or \<open>user.is_superuser\<close>.
\<close>

definition can_modify_product :: "user \<Rightarrow> product \<Rightarrow> bool" where
  "can_modify_product u p = (user_id u = owner_id p \<or> is_superuser u)"

text \<open>
  From the spec, section 4.5, product update: fields that the payload does not supply are
  unchanged, and supplied fields are applied directly. \<open>p\<close> is the stored product
  before the update, \<open>p'\<close> after it.
\<close>

definition unsupplied_unchanged :: "product_update \<Rightarrow> product \<Rightarrow> product \<Rightarrow> bool" where
  "unsupplied_unchanged upd p p' =
     ((pu_name upd = None \<longrightarrow> name p' = name p) \<and>
      (pu_description upd = None \<longrightarrow> description p' = description p) \<and>
      (pu_price upd = None \<longrightarrow> price p' = price p) \<and>
      (pu_stock_quantity upd = None \<longrightarrow> stock_quantity p' = stock_quantity p) \<and>
      (pu_category upd = None \<longrightarrow> category p' = category p) \<and>
      (pu_is_active upd = None \<longrightarrow> is_active p' = is_active p))"

definition supplied_applied :: "product_update \<Rightarrow> product \<Rightarrow> bool" where
  "supplied_applied upd p' =
     ((\<forall>v. pu_name upd = Some v \<longrightarrow> v = Some (name p')) \<and>
      (\<forall>v. pu_description upd = Some v \<longrightarrow> description p' = v) \<and>
      (\<forall>v. pu_price upd = Some v \<longrightarrow> v = Some (price p')) \<and>
      (\<forall>v. pu_stock_quantity upd = Some v \<longrightarrow> v = Some (stock_quantity p')) \<and>
      (\<forall>v. pu_category upd = Some v \<longrightarrow> category p' = v) \<and>
      (\<forall>v. pu_is_active upd = Some v \<longrightarrow> is_active p' = v))"

text \<open>
  From the spec, section 4.3: a SKU exists when a stored product has it; the candidates
  are \<open>{clean}-{counter:04d}\<close> and \<open>{clean}-{random 8-character token}\<close>.
\<close>

definition sku_exists :: "db \<Rightarrow> string \<Rightarrow> bool" where
  "sku_exists d s = (\<exists>p\<in>set (products d). sku p = s)"

definition counter_sku :: "string \<Rightarrow> nat \<Rightarrow> string" where
  "counter_sku b k = clean_name b @ ''-'' @ format_04d k"

definition uuid_sku :: "string \<Rightarrow> (nat \<Rightarrow> string) \<Rightarrow> nat \<Rightarrow> string" where
  "uuid_sku clean uuid4 n = clean @ ''-'' @ uuid_part (uuid4 n)"







text \<open>
  The requests that write to the users table, and a run of them. The product endpoints
  leave that table alone.
\<close>

datatype user_request =
    Register user_create
  | PutUser int user_update user
  | DeleteUser int user

fun apply_request :: "(string \<Rightarrow> string) \<Rightarrow> db \<Rightarrow> user_request \<Rightarrow> db" where
  "apply_request hash d (Register u) = snd (create_user hash d u)"
| "apply_request hash d (PutUser uid upd caller) = snd (put_user d uid upd caller)"
| "apply_request hash d (DeleteUser uid caller) = snd (delete_user_request d uid caller)"

text \<open>The ids of the stored users whose superuser flag is set.\<close>

definition superusers :: "db \<Rightarrow> int set" where
  "superusers d = set (map user_id (filter is_superuser (users d)))"

section \<open>Example data\<close>

definition alice :: user where
  "alice = \<lparr> user_id = 1, email = ''alice@example.com'', username = ''alice'',
             hashed_password = ''x'', full_name = None, user_is_active = Some True,
             is_superuser = False \<rparr>"

definition db_alice :: db where
  "db_alice = \<lparr> users = [alice], products = [] \<rparr>"

definition admin :: user where
  "admin = \<lparr> user_id = 1, email = ''admin@example.com'', username = ''admin'',
             hashed_password = ''x'', full_name = None, user_is_active = Some True,
             is_superuser = True \<rparr>"

definition bob :: user where
  "bob = \<lparr> user_id = 2, email = ''bob@example.com'', username = ''bob'',
           hashed_password = ''y'', full_name = Some ''Bob'', user_is_active = Some True,
           is_superuser = False \<rparr>"

definition carol :: user where
  "carol = \<lparr> user_id = 3, email = ''carol@example.com'', username = ''carol'',
             hashed_password = ''z'', full_name = None, user_is_active = Some True,
             is_superuser = False \<rparr>"

definition laptop :: product where
  "laptop = \<lparr> product_id = 10, name = ''Gaming Laptop Pro'',
              description = Some ''High-performance gaming laptop with RTX 4080 graphics'',
              price = 2500, stock_quantity = 25, category = Some ''Electronics'',
              sku = ''GAMINGLA-0001'', is_active = Some True, owner_id = 2 \<rparr>"

text \<open>Three users, one of them a superuser, and one product that \<open>bob\<close> owns.\<close>

definition shop :: db where
  "shop = \<lparr> users = [admin, bob, carol], products = [laptop] \<rparr>"

text \<open>A database with \<open>n\<close> active products.\<close>

definition item :: "nat \<Rightarrow> product" where
  "item i = \<lparr> product_id = int i + 1, name = ''Item'', description = None, price = 5,
              stock_quantity = 1, category = None, sku = ''ITEM-'' @ format_04d (i + 1),
              is_active = Some True, owner_id = 2 \<rparr>"

definition catalogue :: "nat \<Rightarrow> db" where
  "catalogue n = \<lparr> users = [admin, bob], products = map item [0..<n] \<rparr>"

definition rename_laptop :: product_update where
  "rename_laptop = \<lparr> pu_name = Some (Some ''Laptop''), pu_description = None,
       pu_price = None, pu_stock_quantity = None, pu_category = Some None,
       pu_is_active = None, pu_sku = Some (Some ''NEW-SKU'') \<rparr>"

text \<open>A source of UUIDs that yields the same value at every draw.\<close>

definition fixed_uuid :: "nat \<Rightarrow> string" where
  "fixed_uuid i = ''3f2a9c1e-8b4d-4e6f-9a1b-2c3d4e5f6a7b''"







section \<open>Properties\<close>

subsection \<open>Registration\<close>

text \<open>
  C6. Registration with an email that a stored user already has fails with
  \<open>DuplicateEmail\<close>, whether or not the username is taken as well; with a free email and
  a username that a stored user already has it fails with \<open>DuplicateUsername\<close>. In both
  cases the database that \<open>create_user\<close> leaves is the one it was given: no row was
  inserted.
\<close>

theorem create_user_duplicate:
  "((\<exists>x\<in>set (users d). email x = uc_email u) \<longrightarrow>
      create_user hash d u = (Inl DuplicateEmail, d)) \<and>
   ((\<forall>x\<in>set (users d). email x \<noteq> uc_email u) \<and>
    (\<exists>x\<in>set (users d). username x = uc_username u) \<longrightarrow>
      create_user hash d u = (Inl DuplicateUsername, d))"
  by (auto simp: create_user_def get_user_by_email_def get_user_by_username_def find_None_iff)

theorem create_user_duplicate_witness:
  "create_user (\<lambda>p. p) db_alice
      \<lparr> uc_email = ''alice@example.com'', uc_username = ''alice'',
        uc_password = ''Secret123'', uc_full_name = None \<rparr> = (Inl DuplicateEmail, db_alice) \<and>
   create_user (\<lambda>p. p) db_alice
      \<lparr> uc_email = ''other@example.com'', uc_username = ''alice'',
        uc_password = ''Secret123'', uc_full_name = None \<rparr> = (Inl DuplicateUsername, db_alice)"
  using
    create_user_duplicate [of db_alice
      "\<lparr> uc_email = ''alice@example.com'', uc_username = ''alice'',
         uc_password = ''Secret123'', uc_full_name = None \<rparr>" "\<lambda>p. p"]
    create_user_duplicate [of db_alice
      "\<lparr> uc_email = ''other@example.com'', uc_username = ''alice'',
         uc_password = ''Secret123'', uc_full_name = None \<rparr>" "\<lambda>p. p"]
  by (simp add: db_alice_def alice_def)

lemmas example_defs = alice_def db_alice_def admin_def bob_def carol_def laptop_def shop_def

lemma find_SomeD: "List.find P xs = Some x \<Longrightarrow> x \<in> set xs \<and> P x"
  by (auto simp: find_Some_iff)

subsection \<open>The superuser flag\<close>

lemma set_user_fields_keeps:
  "set_user_fields upd u = Some u' \<Longrightarrow>
     user_id u' = user_id u \<and> is_superuser u' = is_superuser u"
  by (auto simp: set_user_fields_def split: if_splits)

lemma superusers_create_user: "superusers (snd (create_user hash d u)) = superusers d"
  by (auto simp: create_user_def superusers_def Let_def)

lemma superusers_update_user: "superusers (snd (update_user d uid upd)) \<subseteq> superusers d"
proof (cases "get_user d uid")
  case None
  then show ?thesis by (simp add: update_user_def)
next
  case (Some db_user)
  then have mem: "db_user \<in> set (users d)" and uid: "user_id db_user = uid"
    by (auto simp: get_user_def dest: find_SomeD)
  note found = Some
  show ?thesis
  proof (cases "set_user_fields upd db_user")
    case None
    with found show ?thesis by (simp add: update_user_def)
  next
    case (Some u')
    then have k: "user_id u' = uid" "is_superuser u' = is_superuser db_user"
      using set_user_fields_keeps [OF Some] uid by auto
    have "superusers (d\<lparr>users := map (\<lambda>u. if user_id u = uid then u' else u) (users d)\<rparr>)
            \<subseteq> superusers d"
      using mem uid k by (auto simp: superusers_def split: if_splits)
    with Some found show ?thesis
      by (simp add: update_user_def)
  qed
qed

lemma superusers_delete_user: "superusers (snd (delete_user d uid)) \<subseteq> superusers d"
  by (auto simp: delete_user_def superusers_def split: option.splits)

lemma superusers_apply_request: "superusers (apply_request hash d r) \<subseteq> superusers d"
proof (cases r)
  case (Register u)
  then show ?thesis by (simp add: superusers_create_user)
next
  case (PutUser uid upd caller)
  then show ?thesis
    using superusers_update_user [of d uid upd]
    by (simp add: put_user_def with_dependency_def update_existing_user_def split: sum.splits)
next
  case (DeleteUser uid caller)
  then show ?thesis
    using superusers_delete_user [of d uid]
    by (auto simp: delete_user_request_def with_dependency_def delete_existing_user_def
             split: sum.splits prod.splits if_splits)
qed

lemma superusers_requests: "superusers (foldl (apply_request hash) d rs) \<subseteq> superusers d"
proof (induction rs arbitrary: d)
  case Nil
  show ?case by simp
next
  case (Cons r rs)
  have "superusers (foldl (apply_request hash) (apply_request hash d r) rs)
          \<subseteq> superusers (apply_request hash d r)"
    by (rule Cons.IH)
  also have "\<dots> \<subseteq> superusers d" by (rule superusers_apply_request)
  finally show ?case by simp
qed

text \<open>
  C9. A user that registration creates has \<open>is_superuser = False\<close>, and whatever
  registrations, user updates and user deletions are run, in any order and by any
  callers, every stored user whose superuser flag is set afterwards has the id of a user
  whose flag was set before: no request sets the flag.
\<close>

theorem superuser_flag_invariant:
  "(create_user hash d u = (Inr new_user, d') \<longrightarrow> is_superuser new_user = False) \<and>
   superusers (foldl (apply_request hash) d rs) \<subseteq> superusers d"
  using superusers_requests [of hash d rs]
  by (auto simp: create_user_def Let_def split: if_splits)

theorem superuser_flag_invariant_witness:
  "create_user (\<lambda>p. p) db_alice
      \<lparr> uc_email = ''dave@example.com'', uc_username = ''dave'', uc_password = ''Secret123'',
        uc_full_name = None \<rparr>
     = (Inr \<lparr> user_id = 2, email = ''dave@example.com'', username = ''dave'',
              hashed_password = ''Secret123'', full_name = None, user_is_active = Some True,
              is_superuser = False \<rparr>,
        db_alice\<lparr>users := [alice,
          \<lparr> user_id = 2, email = ''dave@example.com'', username = ''dave'',
            hashed_password = ''Secret123'', full_name = None, user_is_active = Some True,
            is_superuser = False \<rparr>]\<rparr>) \<and>
   superusers (foldl (apply_request (\<lambda>p. p)) shop
      [Register \<lparr> uc_email = ''dave@example.com'', uc_username = ''dave'',
                  uc_password = ''Secret123'', uc_full_name = None \<rparr>,
       PutUser 2 \<lparr> uu_email = None, uu_username = Some (Some ''robert''), uu_full_name = None,
                   uu_is_active = Some (Some False) \<rparr> admin,
       DeleteUser 3 admin]) \<subseteq> superusers shop"
proof (rule conjI)
  show "create_user (\<lambda>p. p) db_alice
      \<lparr> uc_email = ''dave@example.com'', uc_username = ''dave'', uc_password = ''Secret123'',
        uc_full_name = None \<rparr>
     = (Inr \<lparr> user_id = 2, email = ''dave@example.com'', username = ''dave'',
              hashed_password = ''Secret123'', full_name = None, user_is_active = Some True,
              is_superuser = False \<rparr>,
        db_alice\<lparr>users := [alice,
          \<lparr> user_id = 2, email = ''dave@example.com'', username = ''dave'',
            hashed_password = ''Secret123'', full_name = None, user_is_active = Some True,
            is_superuser = False \<rparr>]\<rparr>)"
    by (simp add: create_user_def get_user_by_email_def get_user_by_username_def next_id_def
          alice_def db_alice_def Let_def)
next
  show "superusers (foldl (apply_request (\<lambda>p. p)) shop
      [Register \<lparr> uc_email = ''dave@example.com'', uc_username = ''dave'',
                  uc_password = ''Secret123'', uc_full_name = None \<rparr>,
       PutUser 2 \<lparr> uu_email = None, uu_username = Some (Some ''robert''), uu_full_name = None,
                   uu_is_active = Some (Some False) \<rparr> admin,
       DeleteUser 3 admin]) \<subseteq> superusers shop"
    by (rule superuser_flag_invariant [THEN conjunct2])
qed

subsection \<open>Deleting a user\<close>

text \<open>
  C7, as amended. A deletion request whose target is the acting user fails with
  \<open>InvalidOperation\<close> and leaves the database as it was. A request for any other stored
  user who owns no product succeeds and removes that user.
\<close>

theorem delete_user_self_or_other:
  "delete_existing_user d (user_id current_user) current_user = (Inl InvalidOperation, d) \<and>
   (uid \<noteq> user_id current_user \<and> (\<exists>u\<in>set (users d). user_id u = uid) \<and>
    (\<forall>p\<in>set (products d). owner_id p \<noteq> uid) \<longrightarrow>
      delete_existing_user d uid current_user =
        (Inr ''User deleted successfully'',
         d\<lparr>users := filter (\<lambda>u. user_id u \<noteq> uid) (users d)\<rparr>))"
  by (auto simp: delete_existing_user_def delete_user_def get_user_def owns_product_def
        find_None_iff split: option.splits)

theorem delete_user_self_or_other_witness:
  "delete_existing_user shop (user_id admin) admin = (Inl InvalidOperation, shop) \<and>
   delete_existing_user shop 3 admin =
     (Inr ''User deleted successfully'', shop\<lparr>users := [admin, bob]\<rparr>)"
  using delete_user_self_or_other [of shop admin 3]
  by (simp add: example_defs)

text \<open>
  C7 as stated fails: \<open>bob\<close> is a stored user other than the acting superuser, and the
  request to delete him does not succeed, because he owns a product.
\<close>

theorem delete_user_owner_counterexample:
  "delete_existing_user shop 2 admin = (Inl IntegrityError, shop) \<and>
   is_superuser admin \<and> user_id admin \<noteq> 2 \<and> get_user shop 2 = Some bob"
  by (simp add: delete_existing_user_def delete_user_def get_user_def owns_product_def
        example_defs)

subsection \<open>Who may modify a product\<close>

text \<open>
  C3. For a stored product, \<open>update_product\<close> answers \<open>Forbidden\<close> exactly when the acting
  user is neither the owner nor a superuser, and \<open>delete_product\<close> deletes exactly when
  the acting user is the owner or a superuser; a forbidden update or deletion leaves the
  database as it was.
\<close>

theorem product_modification_permission:
  "get_product d pid = Some p \<Longrightarrow>
     (fst (update_product d pid upd current_user) = Inl Forbidden_update
        \<longleftrightarrow> \<not> can_modify_product current_user p) \<and>
     (\<not> can_modify_product current_user p \<longrightarrow>
        update_product d pid upd current_user = (Inl Forbidden_update, d)) \<and>
     (can_modify_product current_user p \<longrightarrow>
        delete_product d pid current_user =
          (Inr True, d\<lparr>products := filter (\<lambda>q. product_id q \<noteq> pid) (products d)\<rparr>)) \<and>
     (\<not> can_modify_product current_user p \<longrightarrow>
        delete_product d pid current_user = (Inl Forbidden_delete, d))"
  by (auto simp: update_product_def delete_product_def can_modify_product_def Let_def
           Forbidden_update_def split: option.splits)

theorem product_modification_permission_witness:
  "fst (update_product shop 10 rename_laptop carol) = Inl Forbidden_update \<and>
   fst (update_product shop 10 rename_laptop bob) \<noteq> Inl Forbidden_update \<and>
   fst (update_product shop 10 rename_laptop admin) \<noteq> Inl Forbidden_update \<and>
   delete_product shop 10 carol = (Inl Forbidden_delete, shop) \<and>
   delete_product shop 10 bob = (Inr True, shop\<lparr>products := []\<rparr>) \<and>
   delete_product shop 10 admin = (Inr True, shop\<lparr>products := []\<rparr>)"
  using
    product_modification_permission [of shop 10 laptop rename_laptop carol]
    product_modification_permission [of shop 10 laptop rename_laptop bob]
    product_modification_permission [of shop 10 laptop rename_laptop admin]
  by (simp add: example_defs get_product_def can_modify_product_def)

subsection \<open>What a product update changes\<close>

lemma find_map_replace:
  "List.find (\<lambda>q. product_id q = pid) ps = Some p \<Longrightarrow> product_id p' = pid \<Longrightarrow>
   List.find (\<lambda>q. product_id q = pid) (map (\<lambda>q. if product_id q = pid then p' else q) ps)
     = Some p'"
  by (induction ps) (auto split: if_splits)

lemma find_map_other:
  "pid' \<noteq> pid \<Longrightarrow> product_id p' = pid \<Longrightarrow>
   List.find (\<lambda>q. product_id q = pid') (map (\<lambda>q. if product_id q = pid then p' else q) ps)
     = List.find (\<lambda>q. product_id q = pid') ps"
  by (induction ps) (auto split: if_splits)

lemma set_product_fields_frame:
  assumes "set_product_fields upd p = Some p'"
  shows "product_id p' = product_id p" "owner_id p' = owner_id p"
    "pu_sku upd = None \<Longrightarrow> sku p' = sku p"
    "pu_name upd = None \<Longrightarrow> name p' = name p"
    "pu_description upd = None \<Longrightarrow> description p' = description p"
    "pu_price upd = None \<Longrightarrow> price p' = price p"
    "pu_stock_quantity upd = None \<Longrightarrow> stock_quantity p' = stock_quantity p"
    "pu_category upd = None \<Longrightarrow> category p' = category p"
    "pu_is_active upd = None \<Longrightarrow> is_active p' = is_active p"
  using assms
  by (auto simp: set_product_fields_def Let_def split: if_splits)

lemma set_product_fields_supplied:
  assumes "set_product_fields upd p = Some p'"
  shows "pu_name upd = Some v1 \<Longrightarrow> v1 = Some (name p')"
    "pu_description upd = Some v2 \<Longrightarrow> description p' = v2"
    "pu_price upd = Some v3 \<Longrightarrow> v3 = Some (price p')"
    "pu_stock_quantity upd = Some v4 \<Longrightarrow> v4 = Some (stock_quantity p')"
    "pu_category upd = Some v5 \<Longrightarrow> category p' = v5"
    "pu_is_active upd = Some v6 \<Longrightarrow> is_active p' = v6"
  using assms
  by (auto simp: set_product_fields_def Let_def split: if_splits)

lemma update_product_cases:
  assumes "get_product d pid = Some p" "can_modify_product current_user p"
  shows "(set_product_fields (upd\<lparr>pu_sku := None\<rparr>) p = None \<and>
            update_product d pid upd current_user = (Inl IntegrityError, d)) \<or>
         (\<exists>p'. set_product_fields (upd\<lparr>pu_sku := None\<rparr>) p = Some p' \<and>
            update_product d pid upd current_user =
              (Inr p',
               d\<lparr>products := map (\<lambda>q. if product_id q = pid then p' else q) (products d)\<rparr>))"
  using assms
  by (cases "set_product_fields (upd\<lparr>pu_sku := None\<rparr>) p")
     (auto simp: update_product_def can_modify_product_def Let_def)

text \<open>
  C5. Let an authorised user update a stored product, with any payload, a \<open>sku\<close> entry
  included. Afterwards the product is still stored under its id with the SKU, id and
  owner it had, and every field that the payload does not supply has its prior value. If
  the update returns a product, that is the stored one and each supplied field other
  than \<open>sku\<close> has the supplied value. No other product and no user has changed.
\<close>

theorem update_product_frame:
  assumes "get_product d pid = Some p" and "can_modify_product current_user p"
    and "update_product d pid upd current_user = (r, d')"
  shows "\<exists>p'. get_product d' pid = Some p' \<and>
           sku p' = sku p \<and> product_id p' = product_id p \<and> owner_id p' = owner_id p \<and>
           unsupplied_unchanged upd p p' \<and>
           (\<forall>q. r = Inr q \<longrightarrow> q = p' \<and> supplied_applied upd p') \<and>
           (\<forall>pid'. pid' \<noteq> pid \<longrightarrow> get_product d' pid' = get_product d pid') \<and>
           users d' = users d"
proof -
  have pid: "product_id p = pid"
    using assms(1) by (auto simp: get_product_def dest: find_SomeD)
  from update_product_cases [OF assms(1,2), of upd]
  show ?thesis
  proof
    assume "set_product_fields (upd\<lparr>pu_sku := None\<rparr>) p = None \<and>
            update_product d pid upd current_user = (Inl IntegrityError, d)"
    with assms(3) have "r = Inl IntegrityError" "d' = d" by auto
    with assms(1) show ?thesis by (auto simp: unsupplied_unchanged_def)
  next
    assume "\<exists>p'. set_product_fields (upd\<lparr>pu_sku := None\<rparr>) p = Some p' \<and>
            update_product d pid upd current_user =
              (Inr p',
               d\<lparr>products := map (\<lambda>q. if product_id q = pid then p' else q) (products d)\<rparr>)"
    then obtain p' where s: "set_product_fields (upd\<lparr>pu_sku := None\<rparr>) p = Some p'"
      and u: "update_product d pid upd current_user =
              (Inr p',
               d\<lparr>products := map (\<lambda>q. if product_id q = pid then p' else q) (products d)\<rparr>)"
      by blast
    from u assms(3) have r: "r = Inr p'"
      and d': "d' = d\<lparr>products := map (\<lambda>q. if product_id q = pid then p' else q) (products d)\<rparr>"
      by auto
    have id': "product_id p' = pid" using set_product_fields_frame(1) [OF s] pid by simp
    have g: "get_product d' pid = Some p'"
      using assms(1) id' by (simp add: d' get_product_def find_map_replace)
    have o: "\<forall>pid'. pid' \<noteq> pid \<longrightarrow> get_product d' pid' = get_product d pid'"
      using id' by (simp add: d' get_product_def find_map_other)
    have f: "sku p' = sku p" "owner_id p' = owner_id p" "unsupplied_unchanged upd p p'"
      using set_product_fields_frame [OF s] by (simp_all add: unsupplied_unchanged_def)
    have a: "supplied_applied upd p'"
      using set_product_fields_supplied [OF s] by (simp add: supplied_applied_def)
    show ?thesis using g o f a r id' pid by (auto simp: d')
  qed
qed

theorem update_product_frame_witness:
  "update_product shop 10 rename_laptop bob =
     (Inr (laptop\<lparr>name := ''Laptop'', category := None\<rparr>),
      shop\<lparr>products := [laptop\<lparr>name := ''Laptop'', category := None\<rparr>]\<rparr>) \<and>
   pu_sku rename_laptop = Some (Some ''NEW-SKU'') \<and>
   (\<exists>p'. get_product (shop\<lparr>products := [laptop\<lparr>name := ''Laptop'', category := None\<rparr>]\<rparr>) 10
            = Some p' \<and>
         sku p' = ''GAMINGLA-0001'' \<and> price p' = 2500 \<and> stock_quantity p' = 25)"
proof -
  have c: "can_modify_product bob laptop"
    by (simp add: can_modify_product_def bob_def laptop_def)
  have g: "get_product shop 10 = Some laptop"
    by (simp add: get_product_def shop_def laptop_def)
  have u: "update_product shop 10 rename_laptop bob =
     (Inr (laptop\<lparr>name := ''Laptop'', category := None\<rparr>),
      shop\<lparr>products := [laptop\<lparr>name := ''Laptop'', category := None\<rparr>]\<rparr>)"
    by (simp add: update_product_def set_product_fields_def rename_laptop_def get_product_def
          shop_def laptop_def bob_def Let_def)
  from update_product_frame [OF g c u]
  show ?thesis using u
    by (auto simp: unsupplied_unchanged_def rename_laptop_def laptop_def)
qed

subsection \<open>Missing targets\<close>




subsection \<open>Empty filters\<close>

text \<open>
  C10. A listing with \<open>category\<close> equal to the empty string is the listing without a
  category filter, and a listing with \<open>search\<close> equal to the empty string is the listing
  without a search filter, for every database and whatever the other parameters are;
  this holds for \<open>get_products\<close> and for the response of \<open>read_products\<close>.
\<close>

theorem empty_filter_is_no_filter:
  "get_products d skip limit (Some []) search min_price max_price active_only =
     get_products d skip limit None search min_price max_price active_only \<and>
   get_products d skip limit category_arg (Some []) min_price max_price active_only =
     get_products d skip limit category_arg None min_price max_price active_only \<and>
   read_products d skip limit (Some []) search min_price max_price active_only =
     read_products d skip limit None search min_price max_price active_only \<and>
   read_products d skip limit category_arg (Some []) min_price max_price active_only =
     read_products d skip limit category_arg None min_price max_price active_only"
  by (simp add: read_products_def get_products_def filtered_products_def truthy_def)

theorem empty_filter_is_no_filter_witness:
  "get_products shop 0 100 (Some '''') None None None True = [laptop] \<and>
   category laptop = Some ''Electronics'' \<and>
   get_products shop 0 100 None (Some '''') None None True = [laptop]"
  using empty_filter_is_no_filter [of shop 0 100 None None None True None]
  by (simp add: get_products_def filtered_products_def truthy_def example_defs)

subsection \<open>Pagination\<close>

lemma pages_ceiling_nat:
  fixes t l :: nat
  assumes "1 \<le> l"
  shows "t \<le> ((t + l - 1) div l) * l \<and> ((t + l - 1) div l) * l < t + l"
proof (cases "t = 0")
  case True
  with assms show ?thesis by simp
next
  case False
  then have e: "t + l - 1 = (t - 1) + l" using assms by simp
  have "((t - 1) + l) div l = (t - 1) div l + 1"
    using assms by (subst div_add_self2) simp_all
  then have q: "(t + l - 1) div l = (t - 1) div l + 1"
    by (simp only: e)
  have lo: "(t - 1) div l * l \<le> t - 1" by simp
  have hi: "t - 1 < (t - 1) div l * l + l"
    using assms by (metis One_nat_def Suc_le_eq div_mult_mod_eq add_left_mono
        mod_less_divisor nat_add_left_cancel_less)
  define k where "k = (t - 1) div l * l"
  have "((t + l - 1) div l) * l = k + l"
    unfolding q k_def by (simp add: algebra_simps)
  moreover have "k \<le> t - 1" "t - 1 < k + l"
    using lo hi by (simp_all add: k_def)
  ultimately show ?thesis using False by arith
qed

lemma pages_ceiling:
  fixes t l :: nat
  assumes "1 \<le> l"
  shows "int ((t + l - 1) div l) = \<lceil>real t / real l\<rceil>"
proof -
  let ?q = "(t + l - 1) div l"
  from pages_ceiling_nat [OF assms, of t]
  have a: "t \<le> ?q * l" and b: "?q * l < t + l" by auto
  have l0: "0 < real l" using assms by simp
  have "real t \<le> real ?q * real l" using a by (metis of_nat_le_iff of_nat_mult)
  then have 1: "real t / real l \<le> real ?q" using l0 by (simp add: pos_divide_le_eq)
  have "real ?q * real l < real t + real l"
    using b by (metis of_nat_less_iff of_nat_mult of_nat_add)
  then have "(real ?q - 1) * real l < real t" by (simp add: algebra_simps)
  then have 2: "real ?q - 1 < real t / real l" using l0 by (simp add: pos_less_divide_eq)
  have "\<lceil>real t / real l\<rceil> = int ?q"
    by (rule ceiling_unique) (use 1 2 in simp_all)
  then show ?thesis by simp
qed

text \<open>
  What \<open>read_products\<close> answers for parameters inside their bounds: \<open>page\<close> and \<open>pages\<close>
  follow the formulas of the specification, and \<open>total\<close> is the number of matching
  products, but never more than 100.
\<close>

lemma read_products_fields:
  assumes "1 \<le> limit" "limit \<le> 1000"
    and "case min_price of None \<Rightarrow> True | Some m \<Rightarrow> 0 \<le> m"
    and "case max_price of None \<Rightarrow> True | Some m \<Rightarrow> 0 \<le> m"
  shows "\<exists>r. read_products d skip limit category_arg search min_price max_price active_only = Inr r \<and>
           pr_total r = min 100 (length (filtered_products d category_arg search min_price
                                          max_price active_only)) \<and>
           pr_page r = skip div limit + 1 \<and>
           int (pr_pages r) = \<lceil>real (pr_total r) / real limit\<rceil> \<and>
           pr_items r = take limit (drop skip (filtered_products d category_arg search min_price
                                                max_price active_only))"
proof -
  let ?t = "min 100 (length (filtered_products d category_arg search min_price max_price
                              active_only))"
  have c: "int ((?t + limit - 1) div limit) = \<lceil>real ?t / real limit\<rceil>"
    by (rule pages_ceiling [OF assms(1)])
  have v: "\<not> (limit < 1 \<or> 1000 < limit
         \<or> (case min_price of None \<Rightarrow> False | Some m \<Rightarrow> m < 0)
         \<or> (case max_price of None \<Rightarrow> False | Some m \<Rightarrow> m < 0))"
    using assms by (auto split: option.splits)
  show ?thesis
    using c
    by (simp only: read_products_def v if_False Let_def get_products_def)
       (simp add: min.commute)
qed

lemma filtered_catalogue:
  "filtered_products (catalogue n) None None None None True = map item [0..<n]"
  by (simp add: filtered_products_def catalogue_def truthy_def filter_map comp_def item_def)

text \<open>
  C1 at a database with 101 active products, for the request \<open>skip = 0\<close>, \<open>limit = 10\<close>
  without filters: 101 products match, and the response says \<open>total = 100\<close> and
  \<open>pages = 10\<close>, where the claim has 101 and 11.
\<close>

theorem read_products_total_capped:
  "length (filtered_products (catalogue 101) None None None None True) = 101 \<and>
   read_products (catalogue 101) 0 10 None None None None True =
     Inr \<lparr> pr_items = map item [0..<10], pr_total = 100, pr_page = 1, pr_size = 10,
           pr_pages = 10 \<rparr>"
  by (simp add: read_products_def get_products_def filtered_catalogue take_map)

subsection \<open>SKU generation\<close>

lemma of_char_upper_char:
  "of_char (upper_char c) = (let n = (of_char c :: nat) in if 97 \<le> n \<and> n \<le> 122 then n - 32 else n)"
  by (auto simp: upper_char_def Let_def)

lemma upper_char_idem: "upper_char (upper_char c) = upper_char c"
proof (cases "97 \<le> (of_char c :: nat) \<and> (of_char c :: nat) \<le> 122")
  case True
  then have "(of_char (upper_char c) :: nat) = of_char c - 32"
    by (simp add: of_char_upper_char)
  with True have "\<not> (97 \<le> (of_char (upper_char c) :: nat))" by arith
  then show ?thesis by (simp add: upper_char_def [of "upper_char c"] Let_def)
next
  case False
  then show ?thesis by (auto simp: upper_char_def Let_def)
qed

lemma upper_idem: "upper (upper s) = upper s"
  by (simp add: upper_def upper_char_idem)

lemma upper_append: "upper (a @ b) = upper a @ upper b"
  by (simp add: upper_def)

lemma upper_take: "upper (take n s) = take n (upper s)"
  by (simp add: upper_def take_map)

lemma upper_clean_name: "upper (clean_name b) = clean_name b"
proof -
  have "upper ''PROD'' = ''PROD''" by code_simp
  then show ?thesis
    by (simp add: clean_name_def Let_def upper_take upper_idem)
qed

lemma of_char_digit: "d < 10 \<Longrightarrow> (of_char (char_of (48 + d :: nat)) :: nat) = 48 + d"
  by simp

lemma upper_digit: "d < 10 \<Longrightarrow> upper_char (char_of (48 + d :: nat)) = char_of (48 + d)"
  by (simp only: upper_char_def Let_def of_char_digit) simp

lemma upper_str_nat: "upper (str_nat n) = str_nat n"
proof (induction n rule: str_nat.induct)
  case (1 n)
  show ?case
  proof (cases "n < 10")
    case True
    then show ?thesis by (subst (1 2) str_nat.simps) (simp add: upper_def upper_digit)
  next
    case False
    then have "upper (str_nat (n div 10)) = str_nat (n div 10)" using 1 by simp
    moreover have "upper_char (char_of (48 + n mod 10)) = char_of (48 + n mod 10)"
      by (rule upper_digit) simp
    ultimately show ?thesis
      using False by (subst (1 2) str_nat.simps) (simp add: upper_def)
  qed
qed

lemma upper_format_04d: "upper (format_04d n) = format_04d n"
proof -
  have "upper_char CHR ''0'' = CHR ''0''" by code_simp
  then show ?thesis
    using upper_str_nat [of n] by (simp add: format_04d_def Let_def upper_def)
qed

lemma upper_uuid_part: "upper (uuid_part u) = uuid_part u"
  by (simp add: uuid_part_def upper_idem)

lemma upper_counter_candidate:
  "upper (clean_name b @ ''-'' @ format_04d k) = clean_name b @ ''-'' @ format_04d k"
proof -
  have "upper_char CHR ''-'' = CHR ''-''" by code_simp
  then have "upper (''-'' @ format_04d k) = ''-'' @ format_04d k"
    using upper_format_04d [of k] by (simp add: upper_def)
  then show ?thesis by (simp only: upper_append [of "clean_name b"] upper_clean_name)
qed

lemma upper_uuid_candidate:
  "upper c = c \<Longrightarrow> upper (c @ ''-'' @ uuid_part u) = c @ ''-'' @ uuid_part u"
proof -
  assume c: "upper c = c"
  have "upper_char CHR ''-'' = CHR ''-''" by code_simp
  then have "upper (''-'' @ uuid_part u) = ''-'' @ uuid_part u"
    using upper_uuid_part [of u] by (simp add: upper_def)
  then show ?thesis by (simp only: upper_append [of c] c)
qed


lemma sku_exists_iff:
  "upper s = s \<Longrightarrow> sku_exists d s = (get_product_by_sku d s \<noteq> None)"
  by (auto simp: get_product_by_sku_def sku_exists_def find_None_iff)

lemma counter_loop_step:
  "counter_loop d clean c =
     (if get_product_by_sku d (clean @ ''-'' @ format_04d c) = None
      then Some (clean @ ''-'' @ format_04d c)
      else if c + 1 > 9999 then None else counter_loop d clean (c + 1))"
  by (subst counter_loop.simps) (simp add: Let_def)

lemma counter_loop_first_free:
  assumes "get_product_by_sku d (clean @ ''-'' @ format_04d k) = None"
    and "\<forall>j. c \<le> j \<and> j < k \<longrightarrow> get_product_by_sku d (clean @ ''-'' @ format_04d j) \<noteq> None"
    and "c \<le> k" and "k \<le> 9999"
  shows "counter_loop d clean c = Some (clean @ ''-'' @ format_04d k)"
  using assms
proof (induction "k - c" arbitrary: c)
  case 0
  then have "c = k" by simp
  with 0 show ?case by (simp add: counter_loop_step [of d clean k])
next
  case (Suc n)
  then have lt: "c < k" by simp
  with Suc.prems have taken: "get_product_by_sku d (clean @ ''-'' @ format_04d c) \<noteq> None"
    by simp
  have rec: "counter_loop d clean (c + 1) = Some (clean @ ''-'' @ format_04d k)"
  proof (rule Suc.hyps(1))
    show "n = k - (c + 1)" using Suc.hyps(2) by simp
    show "get_product_by_sku d (clean @ ''-'' @ format_04d k) = None" by (rule Suc.prems(1))
    show "\<forall>j. c + 1 \<le> j \<and> j < k \<longrightarrow> get_product_by_sku d (clean @ ''-'' @ format_04d j) \<noteq> None"
      using Suc.prems(2) by simp
    show "c + 1 \<le> k" using lt by simp
    show "k \<le> 9999" by (rule Suc.prems(4))
  qed
  have nb: "\<not> c + 1 > 9999" using lt Suc.prems(4) by simp
  show ?case
    by (simp only: counter_loop_step [of d clean c] taken nb if_False rec)
qed

lemma counter_loop_None:
  "counter_loop d clean c = None \<Longrightarrow> c \<le> j \<Longrightarrow> j \<le> 9999 \<Longrightarrow>
     get_product_by_sku d (clean @ ''-'' @ format_04d j) \<noteq> None"
proof (induction d clean c rule: counter_loop.induct)
  case (1 d clean counter)
  have taken: "get_product_by_sku d (clean @ ''-'' @ format_04d counter) \<noteq> None"
    using "1.prems"(1) by (auto simp: counter_loop_step [of d clean counter] split: if_splits)
  show ?case
  proof (cases "j = counter")
    case True
    with taken show ?thesis by simp
  next
    case False
    with "1.prems" have le: "counter + 1 \<le> j" by simp
    with "1.prems" have nb: "\<not> counter + 1 > 9999" by simp
    have "counter_loop d clean (counter + 1) = None"
      using "1.prems"(1) by (simp only: counter_loop_step [of d clean counter] taken nb if_False)
    then show ?thesis
      using "1.IH" [OF refl taken nb] le "1.prems"(3) by blast
  qed
qed

lemma counter_loop_Some:
  "counter_loop d clean c = Some s \<Longrightarrow>
     get_product_by_sku d s = None \<and> (\<exists>k. s = clean @ ''-'' @ format_04d k)"
proof (induction d clean c rule: counter_loop.induct)
  case (1 d clean counter)
  show ?case
  proof (cases "get_product_by_sku d (clean @ ''-'' @ format_04d counter) = None")
    case True
    with "1.prems" have "s = clean @ ''-'' @ format_04d counter"
      by (simp add: counter_loop_step [of d clean counter])
    with True show ?thesis by blast
  next
    case False
    show ?thesis
    proof (cases "counter + 1 > 9999")
      case True
      have "counter_loop d clean counter = None"
        by (simp only: counter_loop_step [of d clean counter] False True if_False if_True)
      with "1.prems" show ?thesis by simp
    next
      case nb: False
      have "counter_loop d clean (counter + 1) = Some s"
        using "1.prems" by (simp only: counter_loop_step [of d clean counter] False nb if_False)
      then show ?thesis using "1.IH" [OF refl False nb] by blast
    qed
  qed
qed

lemma counter_loop_all_taken:
  assumes "\<forall>j. 1 \<le> j \<and> j \<le> 9999 \<longrightarrow> get_product_by_sku d (clean @ ''-'' @ format_04d j) \<noteq> None"
  shows "counter_loop d clean 1 = None"
proof -
  have "c \<le> 9999 \<Longrightarrow> 1 \<le> c \<Longrightarrow> counter_loop d clean c = None" for c
  proof (induction "9999 - c" arbitrary: c)
    case 0
    then have c: "c = 9999" by simp
    with assms have taken: "get_product_by_sku d (clean @ ''-'' @ format_04d c) \<noteq> None"
      by simp
    have b: "c + 1 > 9999" using c by simp
    show ?case by (simp only: counter_loop_step [of d clean c] taken b if_False if_True)
  next
    case (Suc n)
    with assms have taken: "get_product_by_sku d (clean @ ''-'' @ format_04d c) \<noteq> None" by simp
    have nb: "\<not> c + 1 > 9999" using Suc.hyps(2) by simp
    have "counter_loop d clean (c + 1) = None"
      by (rule Suc.hyps(1)) (use Suc.hyps(2) Suc.prems in simp_all)
    then show ?case
      by (simp only: counter_loop_step [of d clean c] taken nb if_False)
  qed
  then show ?thesis by simp
qed

lemma uuid_loop_first_free:
  assumes "get_product_by_sku d (clean @ ''-'' @ uuid_part (uuid4 (i + k))) = None"
    and "\<forall>j<k. get_product_by_sku d (clean @ ''-'' @ uuid_part (uuid4 (i + j))) \<noteq> None"
  shows "uuid_loop d clean uuid4 i = Some (clean @ ''-'' @ uuid_part (uuid4 (i + k)))"
  using assms
proof (induction k arbitrary: i)
  case 0
  then show ?case by (subst uuid_loop.simps) simp
next
  case (Suc k)
  from Suc.prems(2) have taken: "get_product_by_sku d (clean @ ''-'' @ uuid_part (uuid4 i)) \<noteq> None"
    by (metis add.right_neutral zero_less_Suc)
  have rec: "uuid_loop d clean uuid4 (i + 1) = Some (clean @ ''-'' @ uuid_part (uuid4 (i + 1 + k)))"
  proof (rule Suc.IH)
    show "get_product_by_sku d (clean @ ''-'' @ uuid_part (uuid4 (i + 1 + k))) = None"
      using Suc.prems(1) by simp
    show "\<forall>j<k. get_product_by_sku d (clean @ ''-'' @ uuid_part (uuid4 (i + 1 + j))) \<noteq> None"
    proof (intro allI impI)
      fix j assume "j < k"
      then have "Suc j < Suc k" by simp
      with Suc.prems(2) have "get_product_by_sku d (clean @ ''-'' @ uuid_part (uuid4 (i + Suc j))) \<noteq> None"
        by blast
      then show "get_product_by_sku d (clean @ ''-'' @ uuid_part (uuid4 (i + 1 + j))) \<noteq> None"
        by simp
    qed
  qed
  have "i + 1 + k = i + Suc k" by simp
  with rec have rec': "uuid_loop d clean uuid4 (i + 1) = Some (clean @ ''-'' @ uuid_part (uuid4 (i + Suc k)))"
    by simp
  show ?case
    by (subst uuid_loop.simps) (simp only: taken if_False rec')
qed

lemma uuid_loop_Some:
  assumes "uuid_loop d clean uuid4 i = Some s"
  shows "get_product_by_sku d s = None \<and> (\<exists>k. s = clean @ ''-'' @ uuid_part (uuid4 k))"
proof (rule uuid_loop.raw_induct
    [where P = "\<lambda>d clean uuid4 i s. get_product_by_sku d s = None \<and>
                  (\<exists>k. s = clean @ ''-'' @ uuid_part (uuid4 k))", OF _ assms])
  fix f :: "db \<Rightarrow> string \<Rightarrow> (nat \<Rightarrow> string) \<Rightarrow> nat \<Rightarrow> string option"
    and d clean uuid4 i s
  assume IH: "\<And>d clean uuid4 i s. f d clean uuid4 i = Some s \<Longrightarrow>
                get_product_by_sku d s = None \<and> (\<exists>k. s = clean @ ''-'' @ uuid_part (uuid4 k))"
    and step: "(if get_product_by_sku d (clean @ ''-'' @ uuid_part (uuid4 i)) = None
                then Some (clean @ ''-'' @ uuid_part (uuid4 i))
                else f d clean uuid4 (i + 1)) = Some s"
  show "get_product_by_sku d s = None \<and> (\<exists>k. s = clean @ ''-'' @ uuid_part (uuid4 k))"
  proof (cases "get_product_by_sku d (clean @ ''-'' @ uuid_part (uuid4 i)) = None")
    case True
    with step have "s = clean @ ''-'' @ uuid_part (uuid4 i)" by simp
    with True show ?thesis by blast
  next
    case False
    with step have "f d clean uuid4 (i + 1) = Some s" by (simp only: if_False)
    then show ?thesis by (rule IH)
  qed
qed

lemma taken_counter: "sku_exists d (counter_sku b k)
    = (get_product_by_sku d (clean_name b @ ''-'' @ format_04d k) \<noteq> None)"
  unfolding counter_sku_def by (rule sku_exists_iff) (rule upper_counter_candidate)

lemma taken_uuid: "upper c = c \<Longrightarrow> sku_exists d (uuid_sku c uuid4 n)
    = (get_product_by_sku d (c @ ''-'' @ uuid_part (uuid4 n)) \<noteq> None)"
  unfolding uuid_sku_def by (rule sku_exists_iff) (rule upper_uuid_candidate)

lemma upper_PROD: "upper ''PROD'' = ''PROD''"
  by code_simp

lemma generate_counter:
  assumes "b \<noteq> []" "1 \<le> k" "k \<le> 9999" "\<not> sku_exists d (counter_sku b k)"
    and "\<forall>j. 1 \<le> j \<and> j < k \<longrightarrow> sku_exists d (counter_sku b j)"
  shows "generate_unique_sku d uuid4 (Some b) = Some (counter_sku b k)"
proof -
  have "counter_loop d (clean_name b) 1 = Some (clean_name b @ ''-'' @ format_04d k)"
  proof (rule counter_loop_first_free)
    show "get_product_by_sku d (clean_name b @ ''-'' @ format_04d k) = None"
      using assms(4) unfolding taken_counter by blast
    show "\<forall>j. 1 \<le> j \<and> j < k \<longrightarrow>
            get_product_by_sku d (clean_name b @ ''-'' @ format_04d j) \<noteq> None"
      using assms(5) unfolding taken_counter by blast
  qed (use assms(2,3) in simp_all)
  with assms(1) show ?thesis
    by (simp add: generate_unique_sku_def truthy_def counter_sku_def)
qed

lemma generate_fallback:
  assumes "b \<noteq> []" "\<forall>j. 1 \<le> j \<and> j \<le> 9999 \<longrightarrow> sku_exists d (counter_sku b j)"
    and "\<not> sku_exists d (uuid_sku (clean_name b) uuid4 n)"
    and "\<forall>m<n. sku_exists d (uuid_sku (clean_name b) uuid4 m)"
  shows "generate_unique_sku d uuid4 (Some b) = Some (uuid_sku (clean_name b) uuid4 n)"
proof -
  have c: "counter_loop d (clean_name b) 1 = None"
    by (rule counter_loop_all_taken) (use assms(2) [unfolded taken_counter] in blast)
  have "uuid_loop d (clean_name b) uuid4 0
          = Some (clean_name b @ ''-'' @ uuid_part (uuid4 (0 + n)))"
  proof (rule uuid_loop_first_free)
    show "get_product_by_sku d (clean_name b @ ''-'' @ uuid_part (uuid4 (0 + n))) = None"
      using assms(3) unfolding taken_uuid [OF upper_clean_name] by simp
    show "\<forall>j<n. get_product_by_sku d (clean_name b @ ''-'' @ uuid_part (uuid4 (0 + j))) \<noteq> None"
      using assms(4) unfolding taken_uuid [OF upper_clean_name] by simp
  qed
  with assms(1) c show ?thesis
    by (simp add: generate_unique_sku_def truthy_def uuid_sku_def)
qed

lemma generate_no_base:
  assumes "base = None \<or> base = Some []"
    and "\<not> sku_exists d (uuid_sku ''PROD'' uuid4 n)"
    and "\<forall>m<n. sku_exists d (uuid_sku ''PROD'' uuid4 m)"
  shows "generate_unique_sku d uuid4 base = Some (uuid_sku ''PROD'' uuid4 n)"
proof -
  have "uuid_loop d ''PROD'' uuid4 0 = Some (''PROD'' @ ''-'' @ uuid_part (uuid4 (0 + n)))"
  proof (rule uuid_loop_first_free)
    show "get_product_by_sku d (''PROD'' @ ''-'' @ uuid_part (uuid4 (0 + n))) = None"
      using assms(2) unfolding taken_uuid [OF upper_PROD] by simp
    show "\<forall>j<n. get_product_by_sku d (''PROD'' @ ''-'' @ uuid_part (uuid4 (0 + j))) \<noteq> None"
      using assms(3) unfolding taken_uuid [OF upper_PROD] by simp
  qed
  with assms(1) show ?thesis
    by (auto simp: generate_unique_sku_def truthy_def uuid_sku_def)
qed

lemma uuid_loop_free:
  assumes "uuid_loop d c uuid4 i = Some s" "upper c = c"
  shows "\<not> sku_exists d s"
proof -
  from uuid_loop_Some [OF assms(1)] obtain k
    where f: "get_product_by_sku d s = None" and s: "s = c @ ''-'' @ uuid_part (uuid4 k)"
    by blast
  have "upper s = s" unfolding s by (rule upper_uuid_candidate [OF assms(2)])
  with f show ?thesis by (simp add: sku_exists_iff)
qed

lemma counter_loop_free:
  assumes "counter_loop d (clean_name b) c = Some s"
  shows "\<not> sku_exists d s"
proof -
  from counter_loop_Some [OF assms] obtain k
    where f: "get_product_by_sku d s = None" and s: "s = clean_name b @ ''-'' @ format_04d k"
    by blast
  have "upper s = s" unfolding s by (rule upper_counter_candidate)
  with f show ?thesis by (simp add: sku_exists_iff)
qed

lemma generate_free:
  assumes "generate_unique_sku d uuid4 base = Some s"
  shows "\<not> sku_exists d s"
proof (cases "truthy base")
  case False
  with assms have "uuid_loop d ''PROD'' uuid4 0 = Some s"
    by (simp add: generate_unique_sku_def)
  then show ?thesis by (rule uuid_loop_free) (rule upper_PROD)
next
  case True
  then obtain b where b: "base = Some b" by (auto simp: truthy_def split: option.splits)
  show ?thesis
  proof (cases "counter_loop d (clean_name b) 1")
    case None
    with assms True b have "uuid_loop d (clean_name b) uuid4 0 = Some s"
      by (simp add: generate_unique_sku_def)
    then show ?thesis by (rule uuid_loop_free) (rule upper_clean_name)
  next
    case (Some s')
    with assms True b have "s' = s" by (simp add: generate_unique_sku_def)
    with Some show ?thesis using counter_loop_free by blast
  qed
qed

lemma str_nat_digits: "c \<in> set (str_nat n) \<Longrightarrow> (of_char c :: nat) < 58"
proof (induction n rule: str_nat.induct)
  case (1 n)
  show ?case
  proof (cases "n < 10")
    case True
    with "1.prems" have "c = char_of (48 + n)"
      by (subst (asm) str_nat.simps) simp
    with True show ?thesis by simp
  next
    case False
    with "1.prems" have "c \<in> set (str_nat (n div 10)) \<or> c = char_of (48 + n mod 10)"
      by (subst (asm) str_nat.simps) auto
    then show ?thesis
    proof
      assume "c \<in> set (str_nat (n div 10))"
      with "1.IH" False show ?thesis by simp
    next
      assume "c = char_of (48 + n mod 10)"
      moreover have "n mod 10 < 10" by simp
      ultimately show ?thesis by (simp add: of_char_digit)
    qed
  qed
qed

lemma format_04d_digits:
  assumes "c \<in> set (format_04d n)"
  shows "(of_char c :: nat) < 58"
proof -
  from assms have "c = CHR ''0'' \<or> c \<in> set (str_nat n)"
    by (auto simp: format_04d_def Let_def)
  then show ?thesis
  proof
    assume "c = CHR ''0''"
    then show ?thesis by simp
  next
    assume "c \<in> set (str_nat n)"
    then show ?thesis by (rule str_nat_digits)
  qed
qed

lemma clean_Item: "clean_name ''Item'' = ''ITEM''"
  by code_simp

lemma fixed_uuid_part: "uuid_part (fixed_uuid i) = ''3F2A9C1E''"
  unfolding fixed_uuid_def by code_simp

lemma catalogue_counters_taken:
  assumes "1 \<le> j" "j \<le> n"
  shows "sku_exists (catalogue n) (counter_sku ''Item'' j)"
proof -
  have "item (j - 1) \<in> set (products (catalogue n))"
    using assms by (simp add: catalogue_def)
  moreover have "sku (item (j - 1)) = counter_sku ''Item'' j"
    using assms by (simp add: item_def counter_sku_def clean_Item)
  ultimately show ?thesis unfolding sku_exists_def by blast
qed

lemma catalogue_uuid_free: "\<not> sku_exists (catalogue n) (uuid_sku (clean_name ''Item'') fixed_uuid 0)"
proof
  assume "sku_exists (catalogue n) (uuid_sku (clean_name ''Item'') fixed_uuid 0)"
  then obtain i where "''ITEM-'' @ format_04d (i + 1) = ''ITEM-3F2A9C1E''"
    by (auto simp: sku_exists_def catalogue_def item_def uuid_sku_def clean_Item fixed_uuid_part)
  then have "format_04d (i + 1) = ''3F2A9C1E''" by simp
  then have "CHR ''F'' \<in> set (format_04d (i + 1))" by simp
  then have "(of_char CHR ''F'' :: nat) < 58" by (rule format_04d_digits)
  then show False by simp
qed

text \<open>
  C4. With a non-empty base name, \<open>generate_unique_sku\<close> returns the cleaned name
  followed by the first counter in 1..9999, as four digits, whose SKU does not exist.
  When all 9999 exist, and when no base name is given (\<open>None\<close> or the empty string, with
  \<open>PROD\<close> as the cleaned name), it returns the cleaned name followed by the token of the
  first UUID drawn whose SKU does not exist. Whatever it returns is not the SKU of a
  stored product.
\<close>

theorem generate_unique_sku_spec:
  "(b \<noteq> [] \<and> 1 \<le> k \<and> k \<le> 9999 \<and> \<not> sku_exists d (counter_sku b k) \<and>
    (\<forall>j. 1 \<le> j \<and> j < k \<longrightarrow> sku_exists d (counter_sku b j))
      \<longrightarrow> generate_unique_sku d uuid4 (Some b) = Some (counter_sku b k)) \<and>
   (b \<noteq> [] \<and> (\<forall>j. 1 \<le> j \<and> j \<le> 9999 \<longrightarrow> sku_exists d (counter_sku b j)) \<and>
    \<not> sku_exists d (uuid_sku (clean_name b) uuid4 n) \<and>
    (\<forall>m<n. sku_exists d (uuid_sku (clean_name b) uuid4 m))
      \<longrightarrow> generate_unique_sku d uuid4 (Some b) = Some (uuid_sku (clean_name b) uuid4 n)) \<and>
   ((base = None \<or> base = Some []) \<and> \<not> sku_exists d (uuid_sku ''PROD'' uuid4 n) \<and>
    (\<forall>m<n. sku_exists d (uuid_sku ''PROD'' uuid4 m))
      \<longrightarrow> generate_unique_sku d uuid4 base = Some (uuid_sku ''PROD'' uuid4 n)) \<and>
   (generate_unique_sku d uuid4 base = Some s \<longrightarrow> \<not> sku_exists d s)"
  using generate_counter [of b k d uuid4] generate_fallback [of b d uuid4 n]
    generate_no_base [of base d uuid4 n] generate_free [of d uuid4 base s]
  by blast

theorem generate_unique_sku_spec_witness:
  "generate_unique_sku shop fixed_uuid (Some ''Gaming Laptop Pro'') = Some ''GAMINGLA-0002'' \<and>
   generate_unique_sku (catalogue 9999) fixed_uuid (Some ''Item'') = Some ''ITEM-3F2A9C1E'' \<and>
   generate_unique_sku shop fixed_uuid None = Some ''PROD-3F2A9C1E'' \<and>
   \<not> sku_exists shop ''GAMINGLA-0002''"
proof -
  have c1: "counter_sku ''Gaming Laptop Pro'' 1 = ''GAMINGLA-0001''"
    and c2: "counter_sku ''Gaming Laptop Pro'' 2 = ''GAMINGLA-0002''"
    by code_simp+
  have t1: "sku_exists shop ''GAMINGLA-0001''" and f2: "\<not> sku_exists shop ''GAMINGLA-0002''"
    by (simp_all add: sku_exists_def shop_def laptop_def)
  have below: "\<forall>j. 1 \<le> j \<and> j < (2::nat) \<longrightarrow> sku_exists shop (counter_sku ''Gaming Laptop Pro'' j)"
  proof (intro allI impI)
    fix j :: nat assume "1 \<le> j \<and> j < 2"
    then have "j = 1" by simp
    with t1 c1 show "sku_exists shop (counter_sku ''Gaming Laptop Pro'' j)" by simp
  qed
  have a: "generate_unique_sku shop fixed_uuid (Some ''Gaming Laptop Pro'') = Some ''GAMINGLA-0002''"
    using generate_unique_sku_spec [of "''Gaming Laptop Pro''" 2 shop fixed_uuid 0 None "''GAMINGLA-0002''"]
      below f2 c2 by simp
  have u: "uuid_sku ''PROD'' fixed_uuid 0 = ''PROD-3F2A9C1E''"
    and u': "uuid_sku ''ITEM'' fixed_uuid 0 = ''ITEM-3F2A9C1E''"
    by (simp_all add: uuid_sku_def fixed_uuid_part)
  have fp: "\<not> sku_exists shop ''PROD-3F2A9C1E''"
    by (simp add: sku_exists_def shop_def laptop_def)
  have c: "generate_unique_sku shop fixed_uuid None = Some ''PROD-3F2A9C1E''"
    using generate_unique_sku_spec [of "''Gaming Laptop Pro''" 2 shop fixed_uuid 0 None "''GAMINGLA-0002''"]
      fp u by simp
  have all: "\<forall>j. 1 \<le> j \<and> j \<le> 9999 \<longrightarrow> sku_exists (catalogue 9999) (counter_sku ''Item'' j)"
    using catalogue_counters_taken by blast
  have b: "generate_unique_sku (catalogue 9999) fixed_uuid (Some ''Item'') = Some ''ITEM-3F2A9C1E''"
    using generate_unique_sku_spec [of "''Item''" 1 "catalogue 9999" fixed_uuid 0 None "''x''"]
      all catalogue_uuid_free [of 9999] u' by (simp add: clean_Item)
  have d: "\<not> sku_exists shop ''GAMINGLA-0002''"
    using generate_unique_sku_spec [of "''Gaming Laptop Pro''" 2 shop fixed_uuid 0
        "Some ''Gaming Laptop Pro''" "''GAMINGLA-0002''"] a by blast
  show ?thesis using a b c d by blast
qed

subsection \<open>Full-text search\<close>




lemma of_char_lower_char:
  "(of_char (lower_char c) :: nat)
     = (let n = (of_char c :: nat)
        in if (65 \<le> n \<and> n \<le> 90) \<or> (192 \<le> n \<and> n \<le> 222 \<and> n \<noteq> 215) then n + 32 else n)"
  by (auto simp: lower_char_def Let_def)



lemma lower_char_not_upper:
  "\<not> ((65 \<le> (of_char (lower_char c) :: nat) \<and> (of_char (lower_char c) :: nat) \<le> 90)
      \<or> (192 \<le> (of_char (lower_char c) :: nat) \<and> (of_char (lower_char c) :: nat) \<le> 222
          \<and> (of_char (lower_char c) :: nat) \<noteq> 215))"
  by (auto simp: of_char_lower_char Let_def)

lemma lower_char_idem: "lower_char (lower_char c) = lower_char c"
  using lower_char_not_upper [of c]
  by (simp only: lower_char_def [of "lower_char c"] Let_def if_False)

lemma lower_idem: "lower (lower s) = lower s"
  by (simp add: lower_def lower_char_idem)




























end
